theory Spec2Isabelle
  imports Main "HOL-Library.Word" "HOL-Library.AList" "HOL-Library.Char_ord" "HOL-Library.List_Lexorder"
begin

unbundle bit_operations_syntax

section \<open>Data model\<close>

text \<open>
  A change message of a source collection (\<open>ChangeMessage\<close> of the repository's types):
  \<open>{ type, key, value, previousValue? }\<close>. Row values are JavaScript objects or
  \<open>undefined\<close> (\<open>collection.get(key)\<close> and \<open>previousValue\<close> may both be
  \<open>undefined\<close>), so a value is an option: \<open>None\<close> is \<open>undefined\<close>. An object is
  always truthy, so \<open>!v\<close> holds exactly for \<open>None\<close>.
\<close>

datatype OperationType = Insert | Update | Delete

record ('k, 'v) ChangeMessage =
  ctype :: OperationType
  key :: 'k
  val :: "'v option"
  previousValue :: "'v option"

text \<open>The internal unit of the dataflow graph: \<open>[[key, payload], multiplicity]\<close>.\<close>

type_synonym ('k, 'v) tuple = "('k \<times> 'v option) \<times> int"

section \<open>Boundary between change messages and the pipeline input\<close>

text \<open>
  \<open>sendChangesToInput\<close>: the loop that fills \<open>multiSetArray\<close>; the accumulator is the
  array, \<open>push\<close> appends at its end.
\<close>

fun multiSetArray ::
  "('v option \<Rightarrow> 'k) \<Rightarrow> ('k, 'v) ChangeMessage list \<Rightarrow> ('k, 'v) tuple list \<Rightarrow> ('k, 'v) tuple list"
where
  "multiSetArray getKey [] arr = arr"
| "multiSetArray getKey (change # changes) arr =
     (let k = getKey (val change) in
      if ctype change = Insert then
        multiSetArray getKey changes (arr @ [((k, val change), 1)])
      else if ctype change = Update then
        multiSetArray getKey changes
          (arr @ [((k, previousValue change), - 1), ((k, val change), 1)])
      else
        multiSetArray getKey changes (arr @ [((k, val change), - 1)]))"

definition sendChangesToInput ::
  "('v option \<Rightarrow> 'k) \<Rightarrow> ('k, 'v) ChangeMessage list \<Rightarrow> ('k, 'v) tuple list"
where
  "sendChangesToInput getKey changes = multiSetArray getKey changes []"





section \<open>Result materializer\<close>

text \<open>
  The callback given to \<open>output\<close> in \<open>sync\<close>. A message of the terminal stream is
  \<open>[[key, [value, orderByIndex]], multiplicity]\<close>; \<open>orderByIndex\<close> is \<open>undefined\<close>
  (\<open>None\<close>) for a query without ORDER BY. Multiplicities are integers.
\<close>

type_synonym ('rk, 'r) message = "('rk \<times> ('r \<times> string option)) \<times> int"

record 'r changes =
  deletes :: int
  inserts :: int
  cval :: 'r
  orderByIndex :: "string option"

text \<open>
  The reducer: \<open>acc\<close> is a JavaScript \<open>Map\<close>, which iterates in the order of first
  insertion and keeps the position of a key that is set again; an association list
  updated in place.
\<close>

definition reducer ::
  "('rk \<times> 'r changes) list \<Rightarrow> ('rk, 'r) message \<Rightarrow> ('rk \<times> 'r changes) list"
where
  "reducer acc msg =
     (case msg of ((k, (v, obi)), multiplicity) \<Rightarrow>
        let changes0 = (case map_of acc k of
                          Some c \<Rightarrow> c
                        | None \<Rightarrow> \<lparr>deletes = 0, inserts = 0, cval = v, orderByIndex = obi\<rparr>);
            changes1 = (if multiplicity < 0 then
                          changes0\<lparr>deletes := deletes changes0 + abs multiplicity\<rparr>
                        else if multiplicity > 0 then
                          changes0\<lparr>inserts := inserts changes0 + multiplicity,
                                   cval := v, orderByIndex := obi\<rparr>
                        else changes0)
        in AList.update k changes1 acc)"

datatype error = InvariantViolation | MissingDataNeeded | CompileError

type_synonym 'r WriteMessage = "OperationType \<times> 'r"

text \<open>The branch taken for one key; the last branch is the \<open>throw\<close>.\<close>

definition writeFor :: "('rk \<Rightarrow> bool) \<Rightarrow> 'rk \<Rightarrow> 'r changes \<Rightarrow> error + 'r WriteMessage" where
  "writeFor has rawKey changes =
     (if inserts changes \<noteq> 0 \<and> deletes changes = 0 then Inr (Insert, cval changes)
      else if inserts changes > deletes changes
              \<or> (inserts changes = deletes changes \<and> has rawKey) then Inr (Update, cval changes)
      else if deletes changes > 0 then Inr (Delete, cval changes)
      else Inl InvariantViolation)"

text \<open>
  The side tables \<open>resultKeys\<close> and \<open>orderByIndices\<close> (weak maps keyed by the result
  object) and the messages written between \<open>begin\<close> and \<open>commit\<close>.
\<close>

record ('rk, 'r) materialized =
  resultKeys :: "'r \<rightharpoonup> 'rk"
  orderByIndices :: "'r \<rightharpoonup> string"
  written :: "'r WriteMessage list"

fun forEach ::
  "('rk \<Rightarrow> bool) \<Rightarrow> ('rk \<times> 'r changes) list \<Rightarrow> ('rk, 'r) materialized
     \<Rightarrow> error + ('rk, 'r) materialized"
where
  "forEach has [] st = Inr st"
| "forEach has ((rawKey, changes) # rest) st =
     (let st1 = st\<lparr>resultKeys := (resultKeys st)(cval changes \<mapsto> rawKey)\<rparr>;
          st2 = (case orderByIndex changes of
                   None \<Rightarrow> st1
                 | Some i \<Rightarrow> st1\<lparr>orderByIndices := (orderByIndices st1)(cval changes \<mapsto> i)\<rparr>)
      in case writeFor has rawKey changes of
           Inl e \<Rightarrow> Inl e
         | Inr w \<Rightarrow> forEach has rest (st2\<lparr>written := written st2 @ [w]\<rparr>))"

definition outputCallback ::
  "('rk \<Rightarrow> bool) \<Rightarrow> ('rk, 'r) message list \<Rightarrow> ('rk, 'r) materialized
     \<Rightarrow> error + ('rk, 'r) materialized"
where
  "outputCallback has messages st = forEach has (foldl reducer [] messages) (st\<lparr>written := []\<rparr>)"




section \<open>Subscription driver\<close>

text \<open>
  The collaborators of \<open>sync\<close> that are not part of this file of the repository, as
  parameters: the dataflow graph (\<open>sendData\<close> on the collection's input, \<open>run\<close>, which
  also yields the batches the graph delivers to the output callback, and the
  \<open>dataNeeded\<close> hook the top-K operator may have installed), the source collection
  (\<open>index.take\<close>, \<open>get\<close>, \<open>config.getKey\<close>, \<open>currentStateAsChanges\<close>, the readiness of
  all source collections) and the order-by optimization info (\<open>offset\<close>, \<open>limit\<close>,
  \<open>comparator\<close>, \<open>valueExtractorForRawRow\<close>). They do not change during one synchronous
  call of the driver.
\<close>

record ('g, 'k, 'v, 'ov, 'rk, 'r) env =
  sendData :: "('k, 'v) tuple list \<Rightarrow> 'g \<Rightarrow> 'g"
  run :: "'g \<Rightarrow> 'g \<times> ('rk, 'r) message list list"
  dataNeededHook :: "('g \<Rightarrow> int) option"
  indexTake :: "int \<Rightarrow> 'ov option \<Rightarrow> 'k list"
  get :: "'k \<Rightarrow> 'v option"
  getKey :: "'v option \<Rightarrow> 'k"
  currentStateAsChanges :: "('k, 'v) ChangeMessage list"
  filterFn :: "'v \<Rightarrow> bool"
  comparator :: "'v option \<Rightarrow> 'v option \<Rightarrow> int"
  valueExtractorForRawRow :: "'v \<Rightarrow> 'ov"
  offset :: int
  limit :: int
  allCollectionsReady :: bool
  allCollectionsReadyOrInitialCommit :: bool

text \<open>
  The calls the driver makes on the graph, the index and \<open>markReady\<close>, in the order it
  makes them, and the calls on the result collection's transaction (\<open>begin\<close>, \<open>commit\<close>).
\<close>

datatype ('k, 'v, 'ov) event =
    Run
  | DataNeeded int
  | Take int "'ov option"
  | SendData "('k, 'v) tuple list"
  | CurrentState
  | MarkReady

datatype sync_event = Begin | Commit

text \<open>
  The variables of \<open>sync\<close> and of the closures of one source collection: the graph,
  \<open>messagesCount\<close>, \<open>subscribedToAllCollections\<close>, the tracker \<open>sentValuesInfo\<close> of the
  ordered mode (\<open>sentKeys\<close>, \<open>biggest\<close>), \<open>loadedInitialState\<close> and \<open>sentKeys\<close> of the
  lazy mode, the materializer's tables, and the rows of the result collection.
\<close>

record ('g, 'k, 'v, 'ov, 'rk, 'r) sync_state =
  graph :: 'g
  messagesCount :: nat
  subscribedToAllCollections :: bool
  sentKeys :: "'k set"
  biggest :: "'v option"
  loadedInitialState :: bool
  mat :: "('rk, 'r) materialized"
  syncedData :: "('rk \<times> 'r) list"
  calls :: "('k, 'v, 'ov) event list"
  syncCalls :: "sync_event list"

text \<open>
  Modelled from the spec: the result collection that \<open>createCollection\<close> builds (its
  code is not among the sources). It receives batched \<open>begin \<dots> write \<dots> commit\<close>
  transactions; a committed insert or update stores the value under its key (the key the
  materializer recorded in \<open>resultKeys\<close>), a committed delete removes the key; \<open>has\<close>
  tells whether a key is stored.
\<close>

definition applyWrite ::
  "('r \<rightharpoonup> 'rk) \<Rightarrow> ('rk \<times> 'r) list \<Rightarrow> 'r WriteMessage \<Rightarrow> ('rk \<times> 'r) list"
where
  "applyWrite keyOf rows w =
     (case keyOf (snd w) of
        None \<Rightarrow> rows
      | Some k \<Rightarrow> if fst w = Delete then AList.delete k rows else AList.update k (snd w) rows)"

definition collectionHas :: "('rk \<times> 'r) list \<Rightarrow> 'rk \<Rightarrow> bool" where
  "collectionHas rows k = (map_of rows k \<noteq> None)"

text \<open>The output callback on one batch \<open>data\<close>, with its transaction.\<close>

definition deliver ::
  "('rk, 'r) message list \<Rightarrow> ('g, 'k, 'v, 'ov, 'rk, 'r) sync_state
     \<Rightarrow> error + ('g, 'k, 'v, 'ov, 'rk, 'r) sync_state"
where
  "deliver data s =
     (let s1 = s\<lparr>messagesCount := messagesCount s + length data,
                 syncCalls := syncCalls s @ [Begin]\<rparr>
      in case outputCallback (collectionHas (syncedData s1)) data (mat s1) of
           Inl e \<Rightarrow> Inl e
         | Inr m \<Rightarrow>
             Inr (s1\<lparr>mat := m,
                     syncedData := foldl (applyWrite (resultKeys m)) (syncedData s1) (written m),
                     syncCalls := syncCalls s1 @ [Commit]\<rparr>))"

fun deliverAll ::
  "('rk, 'r) message list list \<Rightarrow> ('g, 'k, 'v, 'ov, 'rk, 'r) sync_state
     \<Rightarrow> error + ('g, 'k, 'v, 'ov, 'rk, 'r) sync_state"
where
  "deliverAll [] s = Inr s"
| "deliverAll (data # rest) s =
     (case deliver data s of Inl e \<Rightarrow> Inl e | Inr s1 \<Rightarrow> deliverAll rest s1)"

text \<open>\<open>graph.run()\<close>: the graph drains its pending work and calls the output callback.\<close>

definition graphRun ::
  "('g, 'k, 'v, 'ov, 'rk, 'r) env \<Rightarrow> ('g, 'k, 'v, 'ov, 'rk, 'r) sync_state
     \<Rightarrow> error + ('g, 'k, 'v, 'ov, 'rk, 'r) sync_state"
where
  "graphRun E s =
     (case run E (graph s) of
        (g, batches) \<Rightarrow> deliverAll batches (s\<lparr>graph := g, calls := calls s @ [Run]\<rparr>))"

text \<open>The end of \<open>maybeRunGraph\<close>: the empty first commit and \<open>markReady\<close>.\<close>

definition afterRun ::
  "('g, 'k, 'v, 'ov, 'rk, 'r) env \<Rightarrow> bool \<Rightarrow> ('g, 'k, 'v, 'ov, 'rk, 'r) sync_state
     \<Rightarrow> ('g, 'k, 'v, 'ov, 'rk, 'r) sync_state"
where
  "afterRun E ready s =
     (let s1 = (if messagesCount s = 0 then s\<lparr>syncCalls := syncCalls s @ [Begin, Commit]\<rparr>
                else s)
      in if ready \<and> allCollectionsReady E then s1\<lparr>calls := calls s1 @ [MarkReady]\<rparr> else s1)"

text \<open>\<open>trackSentValues\<close>: the tracker after the generator has been consumed.\<close>

fun trackSentValues ::
  "('k, 'v) ChangeMessage list \<Rightarrow> ('v option \<Rightarrow> 'v option \<Rightarrow> int) \<Rightarrow> 'k set \<times> 'v option
     \<Rightarrow> 'k set \<times> 'v option"
where
  "trackSentValues [] cmp tracker = tracker"
| "trackSentValues (change # changes) cmp (keys, big) =
     trackSentValues changes cmp
       (insert (key change) keys,
        if big = None then val change
        else if cmp big (val change) < 0 then val change
        else big)"

text \<open>
  The first half of \<open>sendChangesToPipeline\<close>: the changes become one batch on the
  collection's input.
\<close>

definition toInput ::
  "('g, 'k, 'v, 'ov, 'rk, 'r) env \<Rightarrow> ('k, 'v) ChangeMessage list
     \<Rightarrow> ('g, 'k, 'v, 'ov, 'rk, 'r) sync_state \<Rightarrow> ('g, 'k, 'v, 'ov, 'rk, 'r) sync_state"
where
  "toInput E changes s =
     (let arr = sendChangesToInput (getKey E) changes
      in s\<lparr>graph := sendData E arr (graph s), calls := calls s @ [SendData arr]\<rparr>)"

text \<open>The inserts \<open>loadNextItems\<close> builds from the index.\<close>

definition nextInserts ::
  "('g, 'k, 'v, 'ov, 'rk, 'r) env \<Rightarrow> int \<Rightarrow> 'v option \<Rightarrow> ('k, 'v) ChangeMessage list"
where
  "nextInserts E n biggestSentRow =
     (let biggestSentValue = (case biggestSentRow of
                                Some row \<Rightarrow> Some (valueExtractorForRawRow E row)
                              | None \<Rightarrow> None);
          nextOrderedKeys = indexTake E n biggestSentValue
      in map (\<lambda>k. \<lparr>ctype = Insert, key = k, val = get E k, previousValue = None\<rparr>)
           nextOrderedKeys)"

text \<open>
  \<open>maybeRunGraph\<close>, \<open>loadMoreIfNeeded\<close>, \<open>loadNextItems\<close> and
  \<open>sendChangesToPipelineWithTracking\<close> call each other, and nothing in this code bounds
  the recursion; a run that does not return is \<open>None\<close> (the fuel is spent). The callback
  of \<open>maybeRunGraph\<close> is \<open>undefined\<close> (\<open>None\<close>) or \<open>loadMoreIfNeeded\<close> with its
  \<open>dataNeeded\<close>. A \<open>throw\<close> of the output callback leaves through every caller.
\<close>

fun maybeRunGraph ::
  "('g, 'k, 'v, 'ov, 'rk, 'r) env \<Rightarrow> nat \<Rightarrow> ('g \<Rightarrow> int) option
     \<Rightarrow> ('g, 'k, 'v, 'ov, 'rk, 'r) sync_state
     \<Rightarrow> (error + ('g, 'k, 'v, 'ov, 'rk, 'r) sync_state) option"
and loadMoreIfNeeded ::
  "('g, 'k, 'v, 'ov, 'rk, 'r) env \<Rightarrow> nat \<Rightarrow> ('g \<Rightarrow> int)
     \<Rightarrow> ('g, 'k, 'v, 'ov, 'rk, 'r) sync_state
     \<Rightarrow> (error + ('g, 'k, 'v, 'ov, 'rk, 'r) sync_state \<times> bool) option"
and loadNextItems ::
  "('g, 'k, 'v, 'ov, 'rk, 'r) env \<Rightarrow> nat \<Rightarrow> ('g \<Rightarrow> int) \<Rightarrow> int
     \<Rightarrow> ('g, 'k, 'v, 'ov, 'rk, 'r) sync_state
     \<Rightarrow> (error + ('g, 'k, 'v, 'ov, 'rk, 'r) sync_state) option"
and sendChangesToPipelineWithTracking ::
  "('g, 'k, 'v, 'ov, 'rk, 'r) env \<Rightarrow> nat \<Rightarrow> ('g \<Rightarrow> int) \<Rightarrow> ('k, 'v) ChangeMessage list
     \<Rightarrow> ('g, 'k, 'v, 'ov, 'rk, 'r) sync_state
     \<Rightarrow> (error + ('g, 'k, 'v, 'ov, 'rk, 'r) sync_state) option"
where
  "maybeRunGraph E 0 callback s = None"
| "maybeRunGraph E (Suc fuel) callback s =
     (if allCollectionsReadyOrInitialCommit E \<and> subscribedToAllCollections s then
        (case graphRun E s of
           Inl e \<Rightarrow> Some (Inl e)
         | Inr s1 \<Rightarrow>
             (case callback of
                None \<Rightarrow> Some (Inr (afterRun E True s1))
              | Some dn \<Rightarrow>
                  (case loadMoreIfNeeded E fuel dn s1 of
                     None \<Rightarrow> None
                   | Some (Inl e) \<Rightarrow> Some (Inl e)
                   | Some (Inr (s2, ready)) \<Rightarrow> Some (Inr (afterRun E ready s2)))))
      else Some (Inr s))"
| "loadMoreIfNeeded E fuel dn s =
     (let n = dn (graph s); s1 = s\<lparr>calls := calls s @ [DataNeeded n]\<rparr>
      in if n > 0 then
           (case loadNextItems E fuel dn n s1 of
              None \<Rightarrow> None
            | Some (Inl e) \<Rightarrow> Some (Inl e)
            | Some (Inr s2) \<Rightarrow> Some (Inr (s2, n = 0)))
         else Some (Inr (s1, n = 0)))"
| "loadNextItems E fuel dn n s =
     sendChangesToPipelineWithTracking E fuel dn (nextInserts E n (biggest s))
       (s\<lparr>calls := calls s @
              [Take n (case biggest s of Some row \<Rightarrow> Some (valueExtractorForRawRow E row)
                       | None \<Rightarrow> None)]\<rparr>)"
| "sendChangesToPipelineWithTracking E fuel dn changes s =
     (let tracker = trackSentValues changes (comparator E) (sentKeys s, biggest s)
      in maybeRunGraph E fuel (Some dn)
           (toInput E changes (s\<lparr>sentKeys := fst tracker, biggest := snd tracker\<rparr>)))"

definition sendChangesToPipeline ::
  "('g, 'k, 'v, 'ov, 'rk, 'r) env \<Rightarrow> nat \<Rightarrow> ('k, 'v) ChangeMessage list \<Rightarrow> ('g \<Rightarrow> int) option
     \<Rightarrow> ('g, 'k, 'v, 'ov, 'rk, 'r) sync_state
     \<Rightarrow> (error + ('g, 'k, 'v, 'ov, 'rk, 'r) sync_state) option"
where
  "sendChangesToPipeline E fuel changes callback s =
     maybeRunGraph E fuel callback (toInput E changes s)"


subsection \<open>Ordered mode\<close>



subsection \<open>Lazy mode\<close>

text \<open>The loop of \<open>sendVisibleChangesToPipeline\<close> that builds \<open>newChanges\<close>.\<close>

fun newChanges :: "('k, 'v) ChangeMessage list \<Rightarrow> 'k set \<Rightarrow> ('k, 'v) ChangeMessage list" where
  "newChanges [] sent = []"
| "newChanges (change # changes) sent =
     (if key change \<notin> sent then
        (if ctype change = Update then change\<lparr>ctype := Insert\<rparr> # newChanges changes sent
         else if ctype change = Delete then newChanges changes sent
         else change # newChanges changes sent)
      else change # newChanges changes sent)"

definition sendVisibleChangesToPipeline ::
  "('g, 'k, 'v, 'ov, 'rk, 'r) env \<Rightarrow> nat \<Rightarrow> ('k, 'v) ChangeMessage list \<Rightarrow> bool \<Rightarrow> 'k set
     \<Rightarrow> ('g, 'k, 'v, 'ov, 'rk, 'r) sync_state
     \<Rightarrow> (error + ('g, 'k, 'v, 'ov, 'rk, 'r) sync_state) option"
where
  "sendVisibleChangesToPipeline E fuel changes loaded sent s =
     (if loaded then sendChangesToPipeline E fuel changes None s
      else sendChangesToPipeline E fuel (newChanges changes sent) None s)"

text \<open>The listener \<open>sendVisibleChanges\<close> of \<open>subscribeToMatchingChanges\<close>.\<close>

definition sendVisibleChanges ::
  "('g, 'k, 'v, 'ov, 'rk, 'r) env \<Rightarrow> nat \<Rightarrow> ('k, 'v) ChangeMessage list
     \<Rightarrow> ('g, 'k, 'v, 'ov, 'rk, 'r) sync_state
     \<Rightarrow> (error + ('g, 'k, 'v, 'ov, 'rk, 'r) sync_state) option"
where
  "sendVisibleChanges E fuel changes s =
     sendVisibleChangesToPipeline E fuel changes (loadedInitialState s) (sentKeys s) s"

definition loadInitialState ::
  "('g, 'k, 'v, 'ov, 'rk, 'r) env \<Rightarrow> nat \<Rightarrow> ('g, 'k, 'v, 'ov, 'rk, 'r) sync_state
     \<Rightarrow> (error + ('g, 'k, 'v, 'ov, 'rk, 'r) sync_state) option"
where
  "loadInitialState E fuel s =
     (if loadedInitialState s then Some (Inr s)
      else sendChangesToPipeline E fuel (currentStateAsChanges E) None
             (s\<lparr>loadedInitialState := True, calls := calls s @ [CurrentState]\<rparr>))"

fun loadKeys ::
  "('g, 'k, 'v, 'ov, 'rk, 'r) env \<Rightarrow> nat \<Rightarrow> 'k list \<Rightarrow> ('g, 'k, 'v, 'ov, 'rk, 'r) sync_state
     \<Rightarrow> (error + ('g, 'k, 'v, 'ov, 'rk, 'r) sync_state) option"
where
  "loadKeys E fuel [] s = Some (Inr s)"
| "loadKeys E fuel (k # keys) s =
     (if k \<in> sentKeys s then loadKeys E fuel keys s
      else (case get E k of
              None \<Rightarrow> loadKeys E fuel keys s
            | Some v \<Rightarrow>
                if filterFn E v then
                  (case sendChangesToPipeline E fuel
                          [\<lparr>ctype = Insert, key = k, val = Some v, previousValue = None\<rparr>] None
                          (s\<lparr>sentKeys := insert k (sentKeys s)\<rparr>) of
                     None \<Rightarrow> None
                   | Some (Inl e) \<Rightarrow> Some (Inl e)
                   | Some (Inr s1) \<Rightarrow> loadKeys E fuel keys s1)
                else loadKeys E fuel keys s))"



subsection \<open>The end of \<open>sync\<close>\<close>





subsection \<open>A small instance of the collaborators\<close>

text \<open>
  A source collection whose rows are natural numbers (a row is its own key and its own
  sort value), with a sorted index over \<open>rows\<close>, and a graph that stores the tuples it
  is sent, delivers nothing to the output and needs \<open>lim\<close> tuples. The theorems below
  are evaluated on it.
\<close>

definition countingEnv ::
  "nat list \<Rightarrow> int \<Rightarrow> ((nat, nat) tuple list, nat, nat, nat, nat, nat) env"
where
  "countingEnv rows lim =
     \<lparr>sendData = (\<lambda>arr g. g @ arr),
      run = (\<lambda>g. (g, [])),
      dataNeededHook = Some (\<lambda>g. max 0 (lim - int (length g))),
      indexTake = (\<lambda>n from.
         take (nat n) (filter (\<lambda>k. case from of None \<Rightarrow> True | Some v \<Rightarrow> v < k) rows)),
      get = (\<lambda>k. if k \<in> set rows then Some k else None),
      getKey = (\<lambda>v. case v of Some k \<Rightarrow> k | None \<Rightarrow> 0),
      currentStateAsChanges =
        map (\<lambda>k. \<lparr>ctype = Insert, key = k, val = Some k, previousValue = None\<rparr>) rows,
      filterFn = (\<lambda>v. True),
      comparator = (\<lambda>a b. case (a, b) of (Some x, Some y) \<Rightarrow> int x - int y | _ \<Rightarrow> 0),
      valueExtractorForRawRow = (\<lambda>row. row),
      offset = 0,
      limit = lim,
      allCollectionsReady = True,
      allCollectionsReadyOrInitialCommit = True\<rparr>"

definition initialState :: "'g \<Rightarrow> ('g, 'k, 'v, 'ov, 'rk, 'r) sync_state" where
  "initialState g =
     \<lparr>graph = g, messagesCount = 0, subscribedToAllCollections = False, sentKeys = {},
      biggest = None, loadedInitialState = False,
      mat = \<lparr>resultKeys = Map.empty, orderByIndices = Map.empty, written = []\<rparr>,
      syncedData = [], calls = [], syncCalls = []\<rparr>"


section \<open>Structural hash: objects hashed by reference\<close>

text \<open>
  Objects are references (their identity); \<open>hashCache\<close> is a weak map keyed by the
  reference, \<open>nextRefId\<close> a JavaScript number that starts at \<open>1\<close>. The class of an
  object decides the \<open>instanceof\<close> tests of \<open>hashObject\<close>. \<open>nextRefId ^ FUNCTIONS\<close>
  works on 32-bit integers: both operands are taken modulo \<open>2^32\<close> and the result is read
  as a signed 32-bit integer. \<open>nextRefId++\<close> on a double stops changing the number at
  \<open>2^53\<close>. \<open>FUNCTIONS\<close> (a \<open>randomHash()\<close>) is a parameter, and so is the hash of a
  date or of a plain object, array, map or set (\<open>hashDate\<close>, \<open>hashPlainObject\<close>), which
  is computed with the Murmur hasher and may hash nested objects.
\<close>

type_synonym ref = nat

datatype obj_class = DateObj | ArrayObj | MapObj | SetObj | BufferObj | Uint8ArrayObj | FileObj
  | PlainObj

record hash_state =
  hashCache :: "ref \<rightharpoonup> int"
  nextRefId :: nat

definition initialHashState :: hash_state where
  "initialHashState = \<lparr>hashCache = Map.empty, nextRefId = 1\<rparr>"

definition cachedReferenceHash :: "32 word \<Rightarrow> ref \<Rightarrow> hash_state \<Rightarrow> int \<times> hash_state" where
  "cachedReferenceHash FUNCTIONS fn st =
     (case hashCache st fn of
        Some valueHash \<Rightarrow> (valueHash, st)
      | None \<Rightarrow>
          (let valueHash = sint (word_of_nat (nextRefId st) XOR FUNCTIONS)
           in (valueHash,
               st\<lparr>nextRefId := (if nextRefId st < 2 ^ 53 then nextRefId st + 1 else nextRefId st),
                  hashCache := (hashCache st)(fn \<mapsto> valueHash)\<rparr>)))"

definition hashObject ::
  "32 word \<Rightarrow> (ref \<Rightarrow> obj_class) \<Rightarrow> (ref \<Rightarrow> hash_state \<Rightarrow> int \<times> hash_state) \<Rightarrow> ref
     \<Rightarrow> hash_state \<Rightarrow> int \<times> hash_state"
where
  "hashObject FUNCTIONS classOf structural input st =
     (case hashCache st input of
        Some cachedHash \<Rightarrow> (cachedHash, st)
      | None \<Rightarrow>
          if classOf input = DateObj then
            (case structural input st of
               (valueHash, st1) \<Rightarrow> (valueHash, st1\<lparr>hashCache := (hashCache st1)(input \<mapsto> valueHash)\<rparr>))
          else if classOf input = BufferObj \<or> classOf input = Uint8ArrayObj
                  \<or> classOf input = FileObj then
            cachedReferenceHash FUNCTIONS input st
          else
            (case structural input st of
               (valueHash, st1) \<Rightarrow> (valueHash, st1\<lparr>hashCache := (hashCache st1)(input \<mapsto> valueHash)\<rparr>)))"

text \<open>The state after the objects of a list have been hashed one after the other.\<close>

definition hashAll ::
  "32 word \<Rightarrow> (ref \<Rightarrow> obj_class) \<Rightarrow> (ref \<Rightarrow> hash_state \<Rightarrow> int \<times> hash_state) \<Rightarrow> ref list
     \<Rightarrow> hash_state \<Rightarrow> hash_state"
where
  "hashAll FUNCTIONS classOf structural inputs st =
     fold (\<lambda>input st1. snd (hashObject FUNCTIONS classOf structural input st1)) inputs st"

definition binary :: "obj_class \<Rightarrow> bool" where
  "binary c = (c = BufferObj \<or> c = Uint8ArrayObj \<or> c = FileObj)"

section \<open>Theorems\<close>

lemma multiSetArray_acc:
  "multiSetArray keyOf changes arr = arr @ multiSetArray keyOf changes []"
proof (induction changes arbitrary: arr)
  case Nil
  show ?case by simp
next
  case (Cons c cs)
  have "multiSetArray keyOf (c # cs) arr = arr @ multiSetArray keyOf (c # cs) []"
    using Cons.IH [of "arr @ [((keyOf (val c), val c), 1)]"]
          Cons.IH [of "arr @ [((keyOf (val c), previousValue c), - 1), ((keyOf (val c), val c), 1)]"]
          Cons.IH [of "arr @ [((keyOf (val c), val c), - 1)]"]
          Cons.IH [of "[((keyOf (val c), val c), 1)]"]
          Cons.IH [of "[((keyOf (val c), previousValue c), - 1), ((keyOf (val c), val c), 1)]"]
          Cons.IH [of "[((keyOf (val c), val c), - 1)]"]
    by (simp add: Let_def)
  then show ?case .
qed

lemma sendChangesToInput_concat:
  "sendChangesToInput keyOf changes =
     concat (map (\<lambda>change.
        case ctype change of
          Insert \<Rightarrow> [((keyOf (val change), val change), 1)]
        | Update \<Rightarrow> [((keyOf (val change), previousValue change), - 1),
                      ((keyOf (val change), val change), 1)]
        | Delete \<Rightarrow> [((keyOf (val change), val change), - 1)]) changes)"
proof (induction changes)
  case Nil
  show ?case by (simp add: sendChangesToInput_def)
next
  case (Cons c cs)
  show ?case
  proof (cases "ctype c")
    case Insert
    then show ?thesis
      using Cons.IH multiSetArray_acc [of keyOf cs "[((keyOf (val c), val c), 1)]"]
      by (simp add: sendChangesToInput_def Let_def)
  next
    case Update
    then show ?thesis
      using Cons.IH
        multiSetArray_acc [of keyOf cs
          "[((keyOf (val c), previousValue c), - 1), ((keyOf (val c), val c), 1)]"]
      by (simp add: sendChangesToInput_def Let_def)
  next
    case Delete
    then show ?thesis
      using Cons.IH multiSetArray_acc [of keyOf cs "[((keyOf (val c), val c), - 1)]"]
      by (simp add: sendChangesToInput_def Let_def)
  qed
qed

text \<open>
  C8. Every change message delivered to a pipeline input becomes: for an insert exactly the
  tuple ((key, value), +1); for a delete exactly ((key, value), -1); for an update exactly
  the pair ((key, previousValue), -1), ((key, value), +1), in this order, where key is
  \<open>getKey\<close> of the message's value. The batch is the concatenation over the messages.
\<close>

theorem sendChangesToInput_tuples:
  "sendChangesToInput keyOf changes =
     concat (map (\<lambda>change.
        case ctype change of
          Insert \<Rightarrow> [((keyOf (val change), val change), 1)]
        | Update \<Rightarrow> [((keyOf (val change), previousValue change), - 1),
                      ((keyOf (val change), val change), 1)]
        | Delete \<Rightarrow> [((keyOf (val change), val change), - 1)]) changes)"
  by (rule sendChangesToInput_concat)

subsection \<open>The materializer's decision\<close>














lemma reducer_keys: "fst ` set (reducer acc m) = insert (fst (fst m)) (fst ` set acc)"
proof -
  obtain k v obi mult where m: "m = ((k, (v, obi)), mult)" by (metis prod.exhaust)
  have "set (map fst (reducer acc m)) = insert k (set (map fst acc))"
    unfolding m reducer_def by (simp add: Let_def update_keys) auto
  then show ?thesis using m by simp
qed

lemma foldl_reducer_keys: "fst ` set (foldl reducer [] ms) = fst ` fst ` set ms"
  by (induction ms rule: rev_induct) (auto simp: reducer_keys)



















subsection \<open>Lazy mode: masking of changes for keys that were not sent\<close>

lemma newChanges_concat:
  "newChanges changes sent =
     concat (map (\<lambda>c. if key c \<in> sent then [c]
                       else if ctype c = Update then [c\<lparr>ctype := Insert\<rparr>]
                       else if ctype c = Delete then []
                       else [c]) changes)"
  by (induction changes) simp_all

lemma deliver_fields:
  "deliver data s = Inr s' \<Longrightarrow>
     loadedInitialState s' = loadedInitialState s \<and> sentKeys s' = sentKeys s
     \<and> biggest s' = biggest s \<and> subscribedToAllCollections s' = subscribedToAllCollections s
     \<and> graph s' = graph s \<and> calls s' = calls s"
  by (auto simp: deliver_def Let_def split: sum.splits)

lemma deliverAll_fields:
  "deliverAll batches s = Inr s' \<Longrightarrow>
     loadedInitialState s' = loadedInitialState s \<and> sentKeys s' = sentKeys s
     \<and> biggest s' = biggest s \<and> subscribedToAllCollections s' = subscribedToAllCollections s
     \<and> graph s' = graph s \<and> calls s' = calls s"
proof (induction batches arbitrary: s)
  case Nil
  then show ?case by simp
next
  case (Cons b bs)
  from Cons.prems obtain s1 where s1: "deliver b s = Inr s1" "deliverAll bs s1 = Inr s'"
    by (cases "deliver b s") auto
  from Cons.IH [OF s1(2)] deliver_fields [OF s1(1)] show ?case by simp
qed

lemma graphRun_fields:
  "graphRun E s = Inr s' \<Longrightarrow>
     loadedInitialState s' = loadedInitialState s \<and> sentKeys s' = sentKeys s
     \<and> biggest s' = biggest s \<and> subscribedToAllCollections s' = subscribedToAllCollections s
     \<and> graph s' = fst (run E (graph s)) \<and> calls s' = calls s @ [Run]"
  by (auto simp: graphRun_def split: prod.splits dest!: deliverAll_fields)

lemma afterRun_fields:
  "loadedInitialState (afterRun E r s) = loadedInitialState s"
  "sentKeys (afterRun E r s) = sentKeys s"
  "biggest (afterRun E r s) = biggest s"
  "subscribedToAllCollections (afterRun E r s) = subscribedToAllCollections s"
  "graph (afterRun E r s) = graph s"
  "calls (afterRun E r s) = calls s @ (if r \<and> allCollectionsReady E then [MarkReady] else [])"
  by (simp_all add: afterRun_def Let_def)

lemma maybeRunGraph_None_fields:
  "maybeRunGraph E fuel None s = Some (Inr s') \<Longrightarrow>
     loadedInitialState s' = loadedInitialState s \<and> sentKeys s' = sentKeys s"
  by (cases fuel)
     (auto simp: afterRun_fields split: if_splits sum.splits dest!: graphRun_fields)

lemma loadInitialState_sets:
  "loadInitialState E fuel s = Some (Inr s') \<Longrightarrow> loadedInitialState s'"
  by (auto simp: loadInitialState_def sendChangesToPipeline_def toInput_def Let_def
           split: if_splits dest!: maybeRunGraph_None_fields)

text \<open>
  C6 (as the code has it). For a lazy-matching collection, as long as \<open>loadInitialState()\<close>
  has not been called, every delivered update whose key is not in \<open>sentKeys\<close> is turned
  into an insert before it is forwarded to the pipeline, every delete of a key not in
  \<open>sentKeys\<close> is dropped, and the changes of keys in \<open>sentKeys\<close> (and all inserts) pass
  through unchanged. Once \<open>loadInitialState()\<close> has returned, the flag is set and every
  change passes through unchanged.
\<close>

theorem lazy_masking:
  "(\<not> loadedInitialState s \<longrightarrow>
      sendVisibleChanges E fuel changes s =
        sendChangesToPipeline E fuel
          (concat (map (\<lambda>c. if key c \<in> sentKeys s then [c]
                             else if ctype c = Update then [c\<lparr>ctype := Insert\<rparr>]
                             else if ctype c = Delete then []
                             else [c]) changes)) None s)
   \<and> (loadedInitialState s \<longrightarrow>
        sendVisibleChanges E fuel changes s = sendChangesToPipeline E fuel changes None s)
   \<and> (\<forall>s'. loadInitialState E fuel s = Some (Inr s') \<longrightarrow> loadedInitialState s')"
  using loadInitialState_sets [of E fuel s]
  by (simp add: sendVisibleChanges_def sendVisibleChangesToPipeline_def newChanges_concat)


theorem lazy_masking_witness:
  "\<not> loadedInitialState ((initialState []) \<lparr>subscribedToAllCollections := True\<rparr> :: ((nat, nat) tuple list, nat, nat, nat, nat, nat) sync_state)
   \<and> map_option (map_sum id calls)
        (sendVisibleChanges (countingEnv [5, 7] 0) (Suc 0)
           [\<lparr>ctype = Update, key = 9, val = Some 9, previousValue = Some 9\<rparr>,
            \<lparr>ctype = Delete, key = 8, val = Some 8, previousValue = None\<rparr>,
            \<lparr>ctype = Insert, key = 6, val = Some 6, previousValue = None\<rparr>]
           ((initialState []) \<lparr>subscribedToAllCollections := True\<rparr>))
      = Some (Inr [SendData [((9, Some 9), 1), ((6, Some 6), 1)], Run, MarkReady])"
proof -
  let ?s = "(initialState []) \<lparr>subscribedToAllCollections := True\<rparr>
      :: ((nat, nat) tuple list, nat, nat, nat, nat, nat) sync_state"
  have n: "\<not> loadedInitialState ?s" by (simp add: initialState_def)
  from lazy_masking [of ?s "countingEnv [5, 7] 0" "Suc 0"
      "[\<lparr>ctype = Update, key = 9, val = Some 9, previousValue = Some 9\<rparr>,
        \<lparr>ctype = Delete, key = 8, val = Some 8, previousValue = None\<rparr>,
        \<lparr>ctype = Insert, key = 6, val = Some 6, previousValue = None\<rparr>]"] n
  have "sendVisibleChanges (countingEnv [5, 7] 0) (Suc 0)
           [\<lparr>ctype = Update, key = 9, val = Some 9, previousValue = Some 9\<rparr>,
            \<lparr>ctype = Delete, key = 8, val = Some 8, previousValue = None\<rparr>,
            \<lparr>ctype = Insert, key = 6, val = Some 6, previousValue = None\<rparr>] ?s
        = sendChangesToPipeline (countingEnv [5, 7] 0) (Suc 0)
            (concat (map (\<lambda>c. if key c \<in> sentKeys ?s then [c]
                             else if ctype c = Update then [c\<lparr>ctype := Insert\<rparr>]
                             else if ctype c = Delete then []
                             else [c])
               [\<lparr>ctype = Update, key = 9, val = Some 9, previousValue = Some 9\<rparr>,
                \<lparr>ctype = Delete, key = 8, val = Some 8, previousValue = None\<rparr>,
                \<lparr>ctype = Insert, key = 6, val = Some 6, previousValue = None\<rparr>])) None ?s"
    by blast
  then show ?thesis
    by (simp add: n initialState_def sendChangesToPipeline_def toInput_def
          sendChangesToInput_def countingEnv_def Let_def graphRun_def afterRun_def)
qed

text \<open>
  The masking does not apply once \<open>loadInitialState\<close> has been called: an update and a
  delete of keys that are not in \<open>sentKeys\<close> then reach the input as they are.
\<close>

theorem lazy_masking_counterexample:
  "(case loadInitialState (countingEnv [5, 7] 0) (Suc 0)
          ((initialState []) \<lparr>subscribedToAllCollections := True\<rparr>) of
      Some (Inr s1) \<Rightarrow>
        9 \<notin> sentKeys s1 \<and> 8 \<notin> sentKeys s1
        \<and> map_option (map_sum id calls)
             (sendVisibleChanges (countingEnv [5, 7] 0) (Suc 0)
                [\<lparr>ctype = Update, key = 9, val = Some 9, previousValue = Some 9\<rparr>,
                 \<lparr>ctype = Delete, key = 8, val = Some 8, previousValue = None\<rparr>] s1)
           = Some (Inr [CurrentState,
                        SendData [((5, Some 5), 1), ((7, Some 7), 1)], Run, MarkReady,
                        SendData [((9, Some 9), - 1), ((9, Some 9), 1), ((8, Some 8), - 1)],
                        Run, MarkReady])
    | _ \<Rightarrow> False)"
  by (simp add: loadInitialState_def sendVisibleChanges_def sendVisibleChangesToPipeline_def
        initialState_def sendChangesToPipeline_def toInput_def
        sendChangesToInput_def countingEnv_def Let_def graphRun_def afterRun_def)


subsection \<open>Lazy mode: the initial state is loaded once\<close>








subsection \<open>Ordered mode: loading more rows after a run\<close>















subsection \<open>Ordered mode: what reaches the input\<close>










text \<open>
  With a comparator that is a total preorder on the rows, the tracker's \<open>biggest\<close> is a
  maximum of the rows sent with tracking.
\<close>

lemma trackSentValues_biggest:
  assumes refl: "\<And>a. cmp a a \<le> 0"
    and anti: "\<And>a b. cmp a b \<ge> 0 \<Longrightarrow> cmp b a \<le> 0"
    and trans: "\<And>a b c. cmp a b \<le> 0 \<Longrightarrow> cmp b c \<le> 0 \<Longrightarrow> cmp a c \<le> 0"
    and defined: "\<forall>c \<in> set changes. val c \<noteq> None"
    and inv: "\<forall>v \<in> V. cmp v big \<le> 0" "big = None \<longrightarrow> V = {}"
  shows "\<forall>v \<in> V \<union> val ` set changes. cmp v (snd (trackSentValues changes cmp (K, big))) \<le> 0"
  using defined inv
proof (induction changes arbitrary: K big V)
  case Nil
  then show ?case by simp
next
  case (Cons c cs)
  let ?big = "if big = None then val c else if cmp big (val c) < 0 then val c else big"
  have 1: "\<forall>v \<in> insert (val c) V. cmp v ?big \<le> 0"
  proof
    fix v assume v: "v \<in> insert (val c) V"
    show "cmp v ?big \<le> 0"
    proof (cases "big = None")
      case True
      with Cons.prems v show ?thesis using refl by auto
    next
      case False
      show ?thesis
      proof (cases "cmp big (val c) < 0")
        case True
        then have "cmp big (val c) \<le> 0" by simp
        with v Cons.prems(2) trans [of _ big "val c"] refl [of "val c"] True False
        show ?thesis by auto
      next
        case ge: False
        then have "cmp (val c) big \<le> 0" using anti [of big "val c"] by simp
        with v Cons.prems(2) ge False show ?thesis by auto
      qed
    qed
  qed
  have 2: "?big = None \<longrightarrow> insert (val c) V = {}"
    using Cons.prems(1) by auto
  have 3: "\<forall>c \<in> set cs. val c \<noteq> None" using Cons.prems(1) by simp
  from Cons.IH [OF 3 1 2, of "insert (key c) K"]
  show ?case by simp
qed

end
